theory Spec2Isabelle
  imports Complex_Main
begin

section \<open>The local weighted regression smoother of 4th.py\<close>

text \<open>
  The development embeds \<^verbatim>\<open>my_lowess\<close> and \<^verbatim>\<open>lowess\<close> of \<^verbatim>\<open>src/all/4th.py\<close>
  together with the two local functions \<^verbatim>\<open>w\<close> and \<^verbatim>\<open>weighted_linear_regression\<close>.

  Conventions of the embedding.
  \<^item> Python integers and the \<^verbatim>\<open>int64\<close> entries of index arrays are \<open>int\<close>; list
    positions are \<open>nat\<close>.
  \<^item> A \<^verbatim>\<open>float64\<close> is a \<open>real option\<close>: \<open>Some r\<close> is the finite value \<open>r\<close> and
    \<open>None\<close> is a non-finite value (\<^verbatim>\<open>nan\<close>, \<^verbatim>\<open>inf\<close> or \<^verbatim>\<open>-inf\<close>). Arithmetic on
    finite values is exact real arithmetic: rounding and overflow of \<^verbatim>\<open>float64\<close>
    are not part of the model. The entries of \<^verbatim>\<open>data_y\<close> are finite, so it is a
    \<open>real list\<close>. The theorems therefore conclude nothing about the digits of a finite
    output: their conclusions are lengths, windows, exceptions, weights, zero and
    nonzero slope denominators and the non-finite result of a division by zero.
  \<^item> NumPy does not raise on a division by zero, it returns a non-finite value (and
    prints a warning); this is \<open>np_div\<close>. Every divisor of the program is finite.
  \<^item> Every exception the code can raise is a value of \<open>py_error\<close>, and a function
    that can raise returns \<open>py_error + 'a\<close>.
\<close>

datatype py_error = ValueError | IndexError

type_synonym npfloat = "real option"

subsection \<open>NumPy arithmetic\<close>

definition np_div :: "real \<Rightarrow> real \<Rightarrow> npfloat" where
  "np_div a b = (if b = 0 then None else Some (a / b))"

definition np_mul :: "npfloat \<Rightarrow> npfloat \<Rightarrow> npfloat" where
  "np_mul a b = (case a of None \<Rightarrow> None | Some x \<Rightarrow> (case b of None \<Rightarrow> None | Some y \<Rightarrow> Some (x * y)))"

definition np_add :: "npfloat \<Rightarrow> npfloat \<Rightarrow> npfloat" where
  "np_add a b = (case a of None \<Rightarrow> None | Some x \<Rightarrow> (case b of None \<Rightarrow> None | Some y \<Rightarrow> Some (x + y)))"

definition np_sub :: "npfloat \<Rightarrow> npfloat \<Rightarrow> npfloat" where
  "np_sub a b = (case a of None \<Rightarrow> None | Some x \<Rightarrow> (case b of None \<Rightarrow> None | Some y \<Rightarrow> Some (x - y)))"

text \<open>\<^verbatim>\<open>np.arange(start, end)\<close> on integers: empty when \<open>end \<le> start\<close>.\<close>

definition np_arange :: "int \<Rightarrow> int \<Rightarrow> int list" where
  "np_arange start end' = [start..end' - 1]"

text \<open>
  \<^verbatim>\<open>a[window]\<close> with an integer index array: an index outside \<open>[-len, len)\<close> raises
  \<^verbatim>\<open>IndexError\<close>, a negative one counts from the end.
\<close>

definition np_take :: "'a list \<Rightarrow> int list \<Rightarrow> py_error + 'a list" where
  "np_take xs js =
     (let n = int (length xs)
      in if list_all (\<lambda>j. - n \<le> j \<and> j < n) js
         then Inr (map (\<lambda>j. xs ! nat (if j < 0 then j + n else j)) js)
         else Inl IndexError)"

text \<open>The builtin \<^verbatim>\<open>max\<close> of a sequence: \<^verbatim>\<open>ValueError\<close> on an empty one.\<close>

definition py_max :: "int list \<Rightarrow> py_error + int" where
  "py_max xs = (case xs of [] \<Rightarrow> Inl ValueError | x # rest \<Rightarrow> Inr (fold max rest x))"

text \<open>\<^verbatim>\<open>np.where(xs == v)[0]\<close>: the positions of \<open>v\<close> in \<open>xs\<close>, in increasing order.\<close>

definition np_where_eq :: "int list \<Rightarrow> int \<Rightarrow> nat list" where
  "np_where_eq xs v = filter (\<lambda>k. xs ! k = v) [0..<length xs]"

text \<open>\<^verbatim>\<open>np.where(xs == v)[0][0]\<close>: \<^verbatim>\<open>IndexError\<close> when \<open>v\<close> does not occur.\<close>

definition first_match :: "int list \<Rightarrow> int \<Rightarrow> py_error + nat" where
  "first_match xs v = (case np_where_eq xs v of [] \<Rightarrow> Inl IndexError | k # _ \<Rightarrow> Inr k)"

subsection \<open>The tri-cube weight\<close>

text \<open>
  \<^verbatim>\<open>def w(x): return (1 - np.abs(x) ** 3) ** 3 if np.abs(x) <= 1 else 0\<close>.
  The comparison is false on a non-finite argument (\<^verbatim>\<open>nan <= 1\<close> and \<^verbatim>\<open>inf <= 1\<close>
  are both false), so the weight is then \<open>0\<close>.
\<close>

definition w :: "npfloat \<Rightarrow> real" where
  "w x = (case x of None \<Rightarrow> 0
          | Some v \<Rightarrow> if \<bar>v\<bar> \<le> 1 then (1 - \<bar>v\<bar> ^ 3) ^ 3 else 0)"

subsection \<open>The weighted linear regression\<close>

text \<open>
  \<^verbatim>\<open>np.sum(v * wt) / w_sum if w_sum != 0 else 0\<close>, the expression of both
  \<^verbatim>\<open>x_mean\<close> and \<^verbatim>\<open>y_mean\<close>. The three arrays of the regression are built from one
  window and have its length.
\<close>

definition weighted_mean :: "real list \<Rightarrow> real list \<Rightarrow> real" where
  "weighted_mean v wt =
     (let w_sum = sum_list wt
      in if w_sum \<noteq> 0 then sum_list (map2 (*) v wt) / w_sum else 0)"

text \<open>\<^verbatim>\<open>np.sum(w * (x_diff * y_diff))\<close>, the numerator of the slope.\<close>

definition slope_num :: "real list \<Rightarrow> real list \<Rightarrow> real list \<Rightarrow> real" where
  "slope_num x y wt =
     (let x_mean = weighted_mean x wt;
          y_mean = weighted_mean y wt;
          x_diff = map (\<lambda>v. v - x_mean) x;
          y_diff = map (\<lambda>v. v - y_mean) y
      in sum_list (map2 (*) wt (map2 (*) x_diff y_diff)))"

text \<open>\<^verbatim>\<open>np.sum(w * x_diff ** 2)\<close>, the denominator of the slope.\<close>

definition slope_den :: "real list \<Rightarrow> real list \<Rightarrow> real" where
  "slope_den x wt =
     (let x_mean = weighted_mean x wt;
          x_diff = map (\<lambda>v. v - x_mean) x
      in sum_list (map2 (*) wt (map (\<lambda>v. v ^ 2) x_diff)))"

definition weighted_linear_regression :: "real list \<Rightarrow> real list \<Rightarrow> real list \<Rightarrow> npfloat list" where
  "weighted_linear_regression x y wt =
     (let x_mean = weighted_mean x wt;
          y_mean = weighted_mean y wt;
          b = np_div (slope_num x y wt) (slope_den x wt);
          a = np_sub (Some y_mean) (np_mul b (Some x_mean))
      in map (\<lambda>v. np_add a (np_mul b (Some v))) x)"

subsection \<open>Window selection\<close>

text \<open>
  Lines 37 to 46 of the loop body: the bounds \<open>(start, end)\<close> of the window of the
  target index \<open>i\<close> in a sequence of length \<open>n\<close>.
\<close>

definition window_bounds :: "int \<Rightarrow> int \<Rightarrow> int \<Rightarrow> int \<times> int" where
  "window_bounds n window_size i =
     (let start = i - window_size;
          end' = i + window_size + 1;
          (start, end') = (if start < 0 then (0, end' - start) else (start, end'));
          (start, end') = (if end' > n then (start - (end' - n), n) else (start, end'))
      in (max start 0, min end' n))"

text \<open>
  The window as the specification words it: start from \<open>[i - h, i + h + 1)\<close>, shift
  right by the deficit of a negative lower bound, shift left by the overflow of the
  upper bound over \<open>n\<close>, then clip both bounds to \<open>[0, n]\<close>.
\<close>

definition clip :: "int \<Rightarrow> int \<Rightarrow> int" where
  "clip n v = max 0 (min n v)"

definition spec_window :: "int \<Rightarrow> int \<Rightarrow> int \<Rightarrow> int \<times> int" where
  "spec_window n h i =
     (let lo = i - h;
          hi = i + h + 1;
          deficit = (if lo < 0 then - lo else 0);
          lo1 = lo + deficit;
          hi1 = hi + deficit;
          overflow = (if hi1 > n then hi1 - n else 0)
      in (clip n (lo1 - overflow), clip n (hi1 - overflow)))"

subsection \<open>The smoothing loop\<close>

text \<open>
  \<^verbatim>\<open>(x_local - i) / max(abs(x_local - i))\<close> followed by \<^verbatim>\<open>w\<close> on every entry:
  the weight vector of a window with the integer offsets \<open>offs\<close>.
\<close>

definition window_weights :: "int list \<Rightarrow> py_error + real list" where
  "window_weights offs =
     (case py_max (map abs offs) of
        Inl e \<Rightarrow> Inl e
      | Inr m \<Rightarrow> Inr (map (\<lambda>d. w (np_div (of_int d) (of_int m))) offs))"

text \<open>
  The arguments of the call of \<^verbatim>\<open>weighted_linear_regression\<close> in the loop body,
  with the positions \<^verbatim>\<open>x_local\<close> they are computed from: \<^verbatim>\<open>x_local - i\<close>,
  \<^verbatim>\<open>y_local\<close> and the weight vector. Python evaluates them before the call and
  before the index expression that follows it.
\<close>

definition regression_args ::
  "int list \<Rightarrow> real list \<Rightarrow> int \<Rightarrow> int \<Rightarrow> py_error + (int list \<times> real list \<times> real list \<times> real list)" where
  "regression_args data_x data_y window_size i =
     (let (start, end') = window_bounds (int (length data_y)) window_size i;
          window = np_arange start end'
      in case np_take data_x window of
           Inl e \<Rightarrow> Inl e
         | Inr x_local \<Rightarrow>
             (case np_take data_y window of
                Inl e \<Rightarrow> Inl e
              | Inr y_local \<Rightarrow>
                  (let offs = map (\<lambda>x. x - i) x_local
                   in case window_weights offs of
                        Inl e \<Rightarrow> Inl e
                      | Inr wts \<Rightarrow> Inr (x_local, map of_int offs, y_local, wts))))"

text \<open>The body of the \<^verbatim>\<open>for\<close> loop: the value stored into \<^verbatim>\<open>result[i]\<close>.\<close>

definition my_lowess_body :: "int list \<Rightarrow> real list \<Rightarrow> int \<Rightarrow> int \<Rightarrow> py_error + npfloat" where
  "my_lowess_body data_x data_y window_size i =
     (case regression_args data_x data_y window_size i of
        Inl e \<Rightarrow> Inl e
      | Inr (x_local, x, y, wts) \<Rightarrow>
          (let fit = weighted_linear_regression x y wts
           in case first_match x_local i of
                Inl e \<Rightarrow> Inl e
              | Inr k \<Rightarrow> Inr (fit ! k)))"

text \<open>
  The loop over \<^verbatim>\<open>range(len(data_y))\<close>: an exception in the body leaves the loop,
  otherwise the value is written into \<^verbatim>\<open>result[i]\<close>.
\<close>

fun my_lowess_loop ::
  "int list \<Rightarrow> real list \<Rightarrow> int \<Rightarrow> nat list \<Rightarrow> npfloat list \<Rightarrow> py_error + npfloat list" where
  "my_lowess_loop data_x data_y window_size [] result = Inr result"
| "my_lowess_loop data_x data_y window_size (i # rest) result =
     (case my_lowess_body data_x data_y window_size (int i) of
        Inl e \<Rightarrow> Inl e
      | Inr v \<Rightarrow> my_lowess_loop data_x data_y window_size rest (result[i := v]))"

definition my_lowess :: "int list \<Rightarrow> real list \<Rightarrow> int \<Rightarrow> py_error + npfloat list" where
  "my_lowess data_x data_y window_size =
     my_lowess_loop data_x data_y window_size [0..<length data_y]
       (replicate (length data_y) (Some 0))"

text \<open>
  \<^verbatim>\<open>lowess\<close> with the environment variable \<^verbatim>\<open>SM_LOWESS\<close> unset: the positions are
  \<^verbatim>\<open>np.arange(len(data_y))\<close>. (With the variable set the function hands the data to
  the statsmodels library, which is outside this development.)
\<close>

definition lowess :: "real list \<Rightarrow> int \<Rightarrow> py_error + npfloat list" where
  "lowess data_y windows_size =
     my_lowess (np_arange 0 (int (length data_y))) data_y windows_size"

section \<open>Window selection\<close>

lemma window_bounds_cases:
  "window_bounds n h i =
     (if i - h < 0
      then (if 2 * h + 1 > n then (max (n - (2 * h + 1)) 0, n) else (0, min (2 * h + 1) n))
      else (if i + h + 1 > n then (max (n - (2 * h + 1)) 0, n) else (max (i - h) 0, min (i + h + 1) n)))"
  by (simp add: window_bounds_def Let_def max_def min_def)

lemma length_np_arange: "length (np_arange s e) = nat (e - s)"
  by (simp add: np_arange_def)

lemma nth_np_arange: "k < nat (e - s) \<Longrightarrow> np_arange s e ! k = s + int k"
  by (simp add: np_arange_def)

lemma set_np_arange: "set (np_arange s e) = {j. s \<le> j \<and> j < e}"
  by (auto simp: np_arange_def)

lemma filter_eq_upt: "filter (\<lambda>k. k = a) [0..<m] = (if a < m then [a] else [])"
  by (induction m) auto

lemma np_where_eq_arange:
  assumes "s \<le> i" "i < e"
  shows "np_where_eq (np_arange s e) i = [nat (i - s)]"
proof -
  have "filter (\<lambda>k. np_arange s e ! k = i) [0..<nat (e - s)] =
        filter (\<lambda>k. k = nat (i - s)) [0..<nat (e - s)]"
    using assms by (intro filter_cong refl) (auto simp: nth_np_arange)
  then show ?thesis
    using assms by (simp add: np_where_eq_def length_np_arange filter_eq_upt)
qed

lemma np_take_arange:
  assumes "\<forall>j\<in>set js. 0 \<le> j \<and> j < n"
  shows "np_take (np_arange 0 n) js = Inr js"
proof -
  have "map (\<lambda>j. np_arange 0 n ! nat (if j < 0 then j + m else j)) js = js" for m
    using assms by (intro map_idI) (auto simp: nth_np_arange)
  moreover have "list_all (\<lambda>j. - int (length (np_arange 0 n)) \<le> j \<and>
                                 j < int (length (np_arange 0 n))) js"
    using assms by (auto simp: length_np_arange list_all_iff)
  ultimately show ?thesis
    by (simp add: np_take_def Let_def)
qed

lemma window_bounds_eq_spec:
  assumes "1 \<le> n" "0 \<le> h" "0 \<le> i" "i < n"
  shows "window_bounds n h i = spec_window n h i"
  using assms by (auto simp: window_bounds_cases spec_window_def clip_def Let_def)

lemma window_bounds_range:
  assumes "1 \<le> n" "0 \<le> h" "0 \<le> i" "i < n"
  shows "0 \<le> fst (window_bounds n h i)" "snd (window_bounds n h i) \<le> n"
        "fst (window_bounds n h i) \<le> i" "i < snd (window_bounds n h i)"
  using assms by (auto simp: window_bounds_cases)

text \<open>
  Claim C2. For a sequence of length \<open>n \<ge> 1\<close>, a half-width \<open>h \<ge> 0\<close> and a target
  index \<open>0 \<le> i < n\<close>, the window the loop selects is the window of the specification
  (shift right by the deficit, shift left by the overflow, clip to \<open>[0, n]\<close>) and lies
  inside \<open>[0, n]\<close>. When \<open>n > 2h\<close> it holds exactly \<open>2h + 1\<close> samples; it is the whole
  sequence when \<open>n \<le> 2h + 1\<close>, and only then.
\<close>

theorem window_shift_then_clip:
  assumes "1 \<le> n" "0 \<le> h" "0 \<le> i" "i < n"
  shows "window_bounds n h i = spec_window n h i \<and>
         0 \<le> fst (window_bounds n h i) \<and> snd (window_bounds n h i) \<le> n \<and>
         (2 * h < n \<longrightarrow>
            int (length (np_arange (fst (window_bounds n h i)) (snd (window_bounds n h i))))
              = 2 * h + 1) \<and>
         (n \<le> 2 * h + 1 \<longrightarrow> window_bounds n h i = (0, n)) \<and>
         (window_bounds n h i = (0, n) \<longrightarrow> n \<le> 2 * h + 1)"
proof -
  have "2 * h < n \<longrightarrow>
          int (length (np_arange (fst (window_bounds n h i)) (snd (window_bounds n h i))))
            = 2 * h + 1"
    using assms by (auto simp: window_bounds_cases length_np_arange)
  moreover have "n \<le> 2 * h + 1 \<longrightarrow> window_bounds n h i = (0, n)"
    using assms by (auto simp: window_bounds_cases)
  moreover have "window_bounds n h i = (0, n) \<longrightarrow> n \<le> 2 * h + 1"
    using assms by (auto simp: window_bounds_cases split: if_splits)
  ultimately show ?thesis
    using window_bounds_eq_spec[OF assms] window_bounds_range(1,2)[OF assms] by simp
qed

text \<open>
  The theorem at \<open>n = 5\<close>, \<open>h = 2\<close>, \<open>i = 0\<close>: the window at the left end is shifted to
  \<open>[0, 5)\<close>, has \<open>2h + 1 = 5\<close> samples and is the whole sequence.
\<close>

theorem window_shift_then_clip_witness:
  "(1::int) \<le> 5 \<and> (0::int) \<le> 2 \<and> (0::int) \<le> 0 \<and> (0::int) < 5 \<and> 2 * 2 < (5::int) \<and>
   (5::int) \<le> 2 * 2 + 1 \<and>
   window_bounds 5 2 0 = spec_window 5 2 0 \<and>
   window_bounds 5 2 0 = (0, 5) \<and>
   int (length (np_arange (fst (window_bounds 5 2 0)) (snd (window_bounds 5 2 0)))) = 2 * 2 + 1"
proof -
  have a: "(1::int) \<le> 5" "(0::int) \<le> 2" "(0::int) \<le> 0" "(0::int) < 5"
    by simp_all
  have b: "2 * 2 < (5::int)" "(5::int) \<le> 2 * 2 + 1"
    by simp_all
  from window_shift_then_clip[OF a] b a show ?thesis
    by blast
qed

text \<open>
  Claim C10. For a sequence of length \<open>n \<ge> 1\<close>, a target index \<open>0 \<le> i < n\<close> and a
  half-width \<open>h \<ge> 0\<close>, the window \<open>[start, end)\<close> satisfies \<open>start \<le> i < end\<close>. The
  positions \<^verbatim>\<open>x_local = data_x[window]\<close> read from \<^verbatim>\<open>data_x = np.arange(n)\<close> are the
  window itself, \<^verbatim>\<open>np.where(x_local == i)[0]\<close> has exactly one entry, and the access
  \<^verbatim>\<open>[0]\<close> to it succeeds.
\<close>

theorem target_index_in_window:
  assumes "1 \<le> n" "0 \<le> h" "0 \<le> i" "i < n"
  shows "case window_bounds n h i of (start, end') \<Rightarrow>
           start \<le> i \<and> i < end' \<and>
           np_take (np_arange 0 n) (np_arange start end') = Inr (np_arange start end') \<and>
           np_where_eq (np_arange start end') i = [nat (i - start)] \<and>
           first_match (np_arange start end') i = Inr (nat (i - start))"
proof -
  obtain s e where se: "window_bounds n h i = (s, e)"
    by (cases "window_bounds n h i")
  from window_bounds_range[OF assms] se
  have r: "0 \<le> s" "e \<le> n" "s \<le> i" "i < e"
    by simp_all
  have "np_take (np_arange 0 n) (np_arange s e) = Inr (np_arange s e)"
    using r by (intro np_take_arange) (auto simp: set_np_arange)
  moreover have "np_where_eq (np_arange s e) i = [nat (i - s)]"
    using r by (rule_tac np_where_eq_arange)
  ultimately show ?thesis
    using r se by (simp add: first_match_def)
qed

text \<open>The theorem at \<open>n = 5\<close>, \<open>h = 1\<close>, \<open>i = 4\<close>: the window is \<open>[2, 5)\<close>.\<close>

theorem target_index_in_window_witness:
  "(1::int) \<le> 5 \<and> (0::int) \<le> 1 \<and> (0::int) \<le> 4 \<and> (4::int) < 5 \<and>
   window_bounds 5 1 4 = (2, 5) \<and>
   np_take (np_arange 0 5) (np_arange 2 5) = Inr (np_arange 2 5) \<and>
   np_where_eq (np_arange 2 5) 4 = [2] \<and>
   first_match (np_arange 2 5) 4 = Inr 2"
proof -
  have a: "(1::int) \<le> 5" "(0::int) \<le> 1" "(0::int) \<le> 4" "(4::int) < 5"
    by simp_all
  have w: "window_bounds 5 1 4 = (2, 5)"
    by (simp add: window_bounds_def)
  from target_index_in_window[OF a] show ?thesis
    by (simp add: w)
qed

section \<open>The smoothing loop\<close>

lemma my_lowess_loop_Inr:
  assumes "\<forall>i\<in>set is. my_lowess_body dx dy h (int i) = Inr (f i)"
  shows "my_lowess_loop dx dy h is res = Inr (fold (\<lambda>i r. r[i := f i]) is res)"
  using assms by (induction "is" arbitrary: res) auto

lemma length_fold_update: "length (fold (\<lambda>i r. r[i := f i]) is res) = length res"
  by (induction "is" arbitrary: res) auto

lemma nth_fold_update:
  "k < length res \<Longrightarrow>
   fold (\<lambda>i r. r[i := f i]) is res ! k = (if k \<in> set is then f k else res ! k)"
  by (induction "is" arbitrary: res) (auto simp: nth_list_update)

lemma my_lowess_loop_Inl:
  assumes "my_lowess_body dx dy h (int i) = Inl e"
  shows "my_lowess_loop dx dy h (i # rest) res = Inl e"
  using assms by simp

lemma np_take_in_range:
  assumes "\<forall>j\<in>set js. 0 \<le> j \<and> j < int (length xs)"
  shows "np_take xs js = Inr (map (\<lambda>j. xs ! nat j) js)"
proof -
  have "map (\<lambda>j. xs ! nat (if j < 0 then j + m else j)) js = map (\<lambda>j. xs ! nat j) js" for m
    using assms by (intro map_cong refl) auto
  moreover have "list_all (\<lambda>j. - int (length xs) \<le> j \<and> j < int (length xs)) js"
    using assms by (auto simp: list_all_iff)
  ultimately show ?thesis
    by (simp add: np_take_def Let_def)
qed

lemma py_max_nonempty:
  "xs \<noteq> [] \<Longrightarrow> py_max xs = Inr (Max (set xs))"
  by (cases xs) (simp_all add: py_max_def Max.set_eq_fold[symmetric])

lemma py_max_empty: "py_max [] = Inl ValueError"
  by (simp add: py_max_def)

lemma window_weights_nonempty:
  "offs \<noteq> [] \<Longrightarrow>
   window_weights offs =
     Inr (map (\<lambda>d. w (np_div (of_int d) (of_int (Max (set (map abs offs)))))) offs)"
  by (simp add: window_weights_def py_max_nonempty)

lemma regression_args_arange:
  assumes "1 \<le> int (length dy)" "0 \<le> h" "0 \<le> i" "i < int (length dy)"
    and se: "window_bounds (int (length dy)) h i = (s, e)"
  shows "regression_args (np_arange 0 (int (length dy))) dy h i =
           Inr (np_arange s e,
                map (\<lambda>j. of_int (j - i)) (np_arange s e),
                map (\<lambda>j. dy ! nat j) (np_arange s e),
                map (\<lambda>j. w (np_div (of_int (j - i))
                       (of_int (Max (set (map (\<lambda>j. \<bar>j - i\<bar>) (np_arange s e))))))) (np_arange s e))"
proof -
  from window_bounds_range[OF assms(1-4)] se
  have r: "0 \<le> s" "e \<le> int (length dy)" "s \<le> i" "i < e"
    by simp_all
  have t1: "np_take (np_arange 0 (int (length dy))) (np_arange s e) = Inr (np_arange s e)"
    using r by (intro np_take_arange) (auto simp: set_np_arange)
  have t2: "np_take dy (np_arange s e) = Inr (map (\<lambda>j. dy ! nat j) (np_arange s e))"
    using r by (intro np_take_in_range) (auto simp: set_np_arange)
  have ne: "map (\<lambda>x. x - i) (np_arange s e) \<noteq> []"
    using r by (simp add: np_arange_def)
  show ?thesis
    by (simp add: regression_args_def Let_def se t1 t2 window_weights_nonempty[OF ne] o_def)
qed

lemma weighted_linear_regression_nth:
  assumes "k < length x"
  shows "weighted_linear_regression x y wt ! k =
           (if slope_den x wt = 0 then None
            else Some (weighted_mean y wt
                       - slope_num x y wt / slope_den x wt * weighted_mean x wt
                       + slope_num x y wt / slope_den x wt * (x ! k)))"
  using assms
  by (simp add: weighted_linear_regression_def Let_def np_div_def np_mul_def np_add_def np_sub_def)

lemma my_lowess_body_arange:
  assumes "1 \<le> int (length dy)" "0 \<le> h" "0 \<le> i" "i < int (length dy)"
    and ra: "regression_args (np_arange 0 (int (length dy))) dy h i = Inr (xl, x, y, wts)"
  shows "my_lowess_body (np_arange 0 (int (length dy))) dy h i =
           Inr (if slope_den x wts = 0 then None
                else Some (weighted_mean y wts
                           - slope_num x y wts / slope_den x wts * weighted_mean x wts))"
proof -
  obtain s e where se: "window_bounds (int (length dy)) h i = (s, e)"
    by (cases "window_bounds (int (length dy)) h i")
  from window_bounds_range[OF assms(1-4)] se
  have r: "0 \<le> s" "e \<le> int (length dy)" "s \<le> i" "i < e"
    by simp_all
  from regression_args_arange[OF assms(1-4) se] ra
  have xl: "xl = np_arange s e" and x: "x = map (\<lambda>j. of_int (j - i)) (np_arange s e)"
    by simp_all
  have fm: "first_match xl i = Inr (nat (i - s))"
    using r by (simp add: first_match_def xl np_where_eq_arange)
  have k: "nat (i - s) < length x"
    using r by (simp add: x length_np_arange)
  have x0: "x ! nat (i - s) = 0"
    using r by (simp add: x nth_np_arange length_np_arange)
  show ?thesis
    by (simp add: my_lowess_body_def ra fm weighted_linear_regression_nth[OF k] x0)
qed

lemma w_nonneg: "0 \<le> w u"
proof (cases u)
  case None
  then show ?thesis by (simp add: w_def)
next
  case (Some v)
  show ?thesis
  proof (cases "\<bar>v\<bar> \<le> 1")
    case True
    then have "\<bar>v\<bar> ^ 3 \<le> 1"
      by (simp add: power_le_one)
    then show ?thesis
      using Some True by (simp add: w_def)
  next
    case False
    then show ?thesis using Some by (simp add: w_def)
  qed
qed

lemma sum_list_map2_zero:
  assumes "\<forall>v\<in>set wt. v = (0::real)"
  shows "sum_list (map2 (*) wt xs) = 0"
  using assms
proof (induction wt arbitrary: xs)
  case Nil
  then show ?case by simp
next
  case (Cons a wt)
  then show ?case by (cases xs) simp_all
qed

lemma zero_weight_zero_den:
  assumes "\<forall>v\<in>set wt. 0 \<le> v" "sum_list wt = 0"
  shows "slope_den x wt = 0"
proof -
  from assms have "\<forall>v\<in>set wt. v = 0"
    by (simp add: sum_list_nonneg_eq_0_iff)
  then show ?thesis
    by (simp add: slope_den_def Let_def sum_list_map2_zero)
qed

lemma regression_args_weights_nonneg:
  assumes "regression_args dx dy h i = Inr (xl, x, y, wts)"
  shows "\<forall>v\<in>set wts. 0 \<le> v"
  using assms
  by (auto simp: regression_args_def window_weights_def Let_def w_nonneg
           split: prod.splits sum.splits)

lemma lowess_Inr:
  assumes "dy \<noteq> []" "0 \<le> h"
    and f: "\<forall>i<length dy. my_lowess_body (np_arange 0 (int (length dy))) dy h (int i) = Inr (f i)"
  shows "lowess dy h = Inr (map f [0..<length dy])"
proof -
  let ?r = "fold (\<lambda>i r. r[i := f i]) [0..<length dy] (replicate (length dy) (Some 0))"
  have "lowess dy h = Inr ?r"
    using f by (simp add: lowess_def my_lowess_def my_lowess_loop_Inr)
  moreover have "?r = map f [0..<length dy]"
    by (rule nth_equalityI) (simp_all add: length_fold_update nth_fold_update)
  ultimately show ?thesis by simp
qed

lemma my_lowess_body_total:
  assumes "1 \<le> int (length dy)" "0 \<le> h" "0 \<le> i" "i < int (length dy)"
  shows "\<exists>xl x y wts.
           regression_args (np_arange 0 (int (length dy))) dy h i = Inr (xl, x, y, wts) \<and>
           my_lowess_body (np_arange 0 (int (length dy))) dy h i =
             Inr (if slope_den x wts = 0 then None
                  else Some (weighted_mean y wts
                             - slope_num x y wts / slope_den x wts * weighted_mean x wts))"
proof -
  obtain s e where se: "window_bounds (int (length dy)) h i = (s, e)"
    by (cases "window_bounds (int (length dy)) h i")
  from regression_args_arange[OF assms se] my_lowess_body_arange[OF assms]
  show ?thesis by blast
qed

lemma lowess_result:
  assumes "data_y \<noteq> []" "0 \<le> h"
  shows "\<exists>r. lowess data_y h = Inr r \<and> length r = length data_y \<and>
           (\<forall>i<length data_y.
              my_lowess_body (np_arange 0 (int (length data_y))) data_y h (int i) = Inr (r ! i))"
proof -
  define f where "f i = (case my_lowess_body (np_arange 0 (int (length data_y))) data_y h (int i)
                         of Inl e \<Rightarrow> None | Inr v \<Rightarrow> v)" for i
  have n: "1 \<le> int (length data_y)"
    using assms(1) by (cases data_y) simp_all
  have f: "\<forall>i<length data_y.
             my_lowess_body (np_arange 0 (int (length data_y))) data_y h (int i) = Inr (f i)"
  proof (intro allI impI)
    fix i assume "i < length data_y"
    then have "0 \<le> int i" "int i < int (length data_y)" by simp_all
    from my_lowess_body_total[OF n assms(2) this] show
      "my_lowess_body (np_arange 0 (int (length data_y))) data_y h (int i) = Inr (f i)"
      unfolding f_def by auto
  qed
  have "lowess data_y h = Inr (map f [0..<length data_y])"
    by (rule lowess_Inr[OF assms f])
  then show ?thesis
    using f by (intro exI[of _ "map f [0..<length data_y]"]) simp
qed

lemma np_arange_0_3: "np_arange 0 3 = [0, 1, 2]"
  by (simp add: np_arange_def upto.simps)

text \<open>
  Claim C1. For a non-empty \<^verbatim>\<open>data_y\<close> of length \<open>n\<close> and a half-width \<open>h \<ge> 0\<close>,
  \<^verbatim>\<open>lowess\<close> returns (without raising) a sequence of length \<open>n\<close> whose entry at every
  index \<open>i\<close> is the value the loop body computes for the target index \<open>i\<close>.
\<close>

theorem lowess_length_order:
  assumes "data_y \<noteq> []" "0 \<le> h"
  shows "\<exists>r. lowess data_y h = Inr r \<and> length r = length data_y \<and>
           (\<forall>i<length data_y.
              my_lowess_body (np_arange 0 (int (length data_y))) data_y h (int i) = Inr (r ! i))"
  using assms by (rule lowess_result)

text \<open>The theorem on the three samples \<open>0, 1, 2\<close> with half-width \<open>1\<close>.\<close>

theorem lowess_length_order_witness:
  "[0, 1, 2::real] \<noteq> [] \<and> (0::int) \<le> 1 \<and>
   (\<exists>r. lowess [0, 1, 2] 1 = Inr r \<and> length r = 3 \<and>
        my_lowess_body (np_arange 0 3) [0, 1, 2] 1 0 = Inr (r ! 0) \<and>
        my_lowess_body (np_arange 0 3) [0, 1, 2] 1 1 = Inr (r ! 1) \<and>
        my_lowess_body (np_arange 0 3) [0, 1, 2] 1 2 = Inr (r ! 2))"
proof -
  have a: "[0, 1, 2::real] \<noteq> []" "(0::int) \<le> 1"
    by simp_all
  from lowess_length_order[OF a] obtain r where
    r: "lowess [0, 1, 2] 1 = Inr r" "length r = length [0, 1, 2::real]"
       "\<forall>i<length [0, 1, 2::real].
          my_lowess_body (np_arange 0 (int (length [0, 1, 2::real]))) [0, 1, 2] 1 (int i)
            = Inr (r ! i)"
    by blast
  from r(3)[rule_format, of 0] r(3)[rule_format, of 1] r(3)[rule_format, of 2]
  have "my_lowess_body (np_arange 0 3) [0, 1, 2] 1 0 = Inr (r ! 0)"
       "my_lowess_body (np_arange 0 3) [0, 1, 2] 1 1 = Inr (r ! 1)"
       "my_lowess_body (np_arange 0 3) [0, 1, 2] 1 2 = Inr (r ! 2)"
    by simp_all
  with r(1,2) a show ?thesis
    by (intro conjI exI[of _ r]) simp_all
qed

text \<open>
  Claim C7. For a non-empty \<^verbatim>\<open>data_y\<close> and a half-width \<open>h \<ge> 0\<close>, \<^verbatim>\<open>lowess\<close> returns a
  result and raises nothing. At every index the arguments of the regression are
  computed without an exception; a window whose weights sum to zero has a zero slope
  denominator, and the output at an index whose window has a zero slope denominator
  is a non-finite value. (The embedding is a function of \<^verbatim>\<open>data_y\<close> and the
  half-width alone, as the source reads no other state: equal inputs give equal
  results.)
\<close>

theorem lowess_never_raises:
  assumes "data_y \<noteq> []" "0 \<le> h"
  shows "\<exists>r. lowess data_y h = Inr r \<and>
           (\<forall>i<length data_y. \<exists>xl x y wts.
              regression_args (np_arange 0 (int (length data_y))) data_y h (int i)
                = Inr (xl, x, y, wts) \<and>
              (sum_list wts = 0 \<longrightarrow> slope_den x wts = 0) \<and>
              (slope_den x wts = 0 \<longrightarrow> r ! i = None))"
proof -
  from lowess_result[OF assms] obtain r where
    r: "lowess data_y h = Inr r" "length r = length data_y"
       "\<forall>i<length data_y.
          my_lowess_body (np_arange 0 (int (length data_y))) data_y h (int i) = Inr (r ! i)"
    by blast
  have n: "1 \<le> int (length data_y)"
    using assms(1) by (cases data_y) simp_all
  have "\<exists>xl x y wts.
          regression_args (np_arange 0 (int (length data_y))) data_y h (int i)
            = Inr (xl, x, y, wts) \<and>
          (sum_list wts = 0 \<longrightarrow> slope_den x wts = 0) \<and>
          (slope_den x wts = 0 \<longrightarrow> r ! i = None)" if i: "i < length data_y" for i
  proof -
    from i have "0 \<le> int i" "int i < int (length data_y)" by simp_all
    from my_lowess_body_total[OF n assms(2) this] obtain xl x y wts where
      ra: "regression_args (np_arange 0 (int (length data_y))) data_y h (int i) = Inr (xl, x, y, wts)"
      and b: "my_lowess_body (np_arange 0 (int (length data_y))) data_y h (int i) =
             Inr (if slope_den x wts = 0 then None
                  else Some (weighted_mean y wts
                             - slope_num x y wts / slope_den x wts * weighted_mean x wts))"
      by blast
    from b r(3) i have v: "r ! i = (if slope_den x wts = 0 then None
                  else Some (weighted_mean y wts
                             - slope_num x y wts / slope_den x wts * weighted_mean x wts))"
      by simp
    have "sum_list wts = 0 \<longrightarrow> slope_den x wts = 0"
      using zero_weight_zero_den regression_args_weights_nonneg[OF ra] by blast
    with ra v show ?thesis
      by (intro exI[of _ xl] exI[of _ x] exI[of _ y] exI[of _ wts]) simp
  qed
  with r(1) show ?thesis by blast
qed

text \<open>
  The theorem on the samples \<open>0, 1, 2\<close> with half-width \<open>1\<close>, at the index \<open>1\<close>: the
  weights are \<open>0, 1, 0\<close>, the slope denominator is zero and the output is non-finite.
\<close>

theorem lowess_never_raises_witness:
  "[0, 1, 2::real] \<noteq> [] \<and> (0::int) \<le> 1 \<and>
   (\<exists>r. lowess [0, 1, 2] 1 = Inr r \<and>
        regression_args (np_arange 0 3) [0, 1, 2] 1 1
          = Inr ([0, 1, 2], [- 1, 0, 1], [0, 1, 2], [0, 1, 0]) \<and>
        slope_den [- 1, 0, 1] [0, 1, 0] = 0 \<and>
        r ! 1 = None)"
proof -
  have a: "[0, 1, 2::real] \<noteq> []" "(0::int) \<le> 1"
    by simp_all
  have wb: "window_bounds 3 1 1 = (0, 3)"
    by (simp add: window_bounds_def)
  have ra: "regression_args (np_arange 0 3) [0, 1, 2] 1 1
              = Inr ([0, 1, 2], [- 1, 0, 1], [0, 1, 2], [0, 1, 0])"
    by (simp add: regression_args_def wb np_arange_0_3 np_take_def window_weights_def
          py_max_def w_def np_div_def)
  have den: "slope_den [- 1, 0, 1] [0, 1, 0] = 0"
    by (simp add: slope_den_def weighted_mean_def)
  from lowess_never_raises[OF a] obtain r where
    r: "lowess [0, 1, 2] 1 = Inr r"
       "\<forall>i<length [0, 1, 2::real]. \<exists>xl x y wts.
          regression_args (np_arange 0 (int (length [0, 1, 2::real]))) [0, 1, 2] 1 (int i)
            = Inr (xl, x, y, wts) \<and>
          (sum_list wts = 0 \<longrightarrow> slope_den x wts = 0) \<and>
          (slope_den x wts = 0 \<longrightarrow> r ! i = None)"
    by blast
  from r(2)[rule_format, of 1] ra den have "r ! 1 = None"
    by simp
  with r(1) ra den a show ?thesis
    by (intro conjI exI[of _ r]) simp_all
qed

section \<open>Violated preconditions\<close>

lemma regression_args_negative:
  assumes "h < 0"
  shows "regression_args dx dy h 0 = Inl ValueError"
proof -
  have wb: "window_bounds (int (length dy)) h 0 = (- h, min (h + 1) (int (length dy)))"
    using assms by (simp add: window_bounds_def Let_def max_def)
  have e: "np_arange (- h) (min (h + 1) (int (length dy))) = []"
    using assms by (simp add: np_arange_def)
  show ?thesis
    by (simp add: regression_args_def wb e np_take_def window_weights_def py_max_def)
qed

lemma lowess_empty: "lowess [] h = Inr []"
  by (simp add: lowess_def my_lowess_def)

lemma lowess_negative:
  assumes "data_y \<noteq> []" "h < 0"
  shows "lowess data_y h = Inl ValueError"
proof -
  have "[0..<length data_y] = 0 # [Suc 0..<length data_y]"
    using assms(1) by (simp add: upt_conv_Cons)
  moreover have "my_lowess_body dx data_y h (int 0) = Inl ValueError" for dx
    using assms(2) by (simp add: my_lowess_body_def regression_args_negative)
  ultimately show ?thesis
    by (simp add: lowess_def my_lowess_def)
qed

text \<open>
  Claim C8 says that an empty input or a negative half-width makes the smoother fail
  with an exception. On the empty sequence the loop runs zero times and the empty
  result is returned: no exception.
\<close>

theorem lowess_empty_counterexample:
  "lowess [] 2 = Inr [] \<and> \<not> isl (lowess [] 2)"
  by (simp add: lowess_empty)

text \<open>
  Claim C8, as the code has it. The source checks no precondition. An empty sequence
  gives the empty result, whatever the half-width. A negative half-width with a
  non-empty sequence makes the window of the index \<open>0\<close> empty, and the builtin
  \<^verbatim>\<open>max\<close> of the empty offset array raises \<^verbatim>\<open>ValueError\<close>.
\<close>

theorem lowess_precondition_violations:
  "lowess [] h = Inr [] \<and> (data_y \<noteq> [] \<and> h < 0 \<longrightarrow> lowess data_y h = Inl ValueError)"
  by (simp add: lowess_empty lowess_negative)

text \<open>The theorem at the half-width \<open>-1\<close> and the samples \<open>1, 2, 3\<close>.\<close>

theorem lowess_precondition_violations_witness:
  "[1, 2, 3::real] \<noteq> [] \<and> (- 1::int) < 0 \<and> lowess [] (- 1) = Inr [] \<and>
   lowess [1, 2, 3] (- 1) = Inl ValueError"
proof -
  have a: "[1, 2, 3::real] \<noteq> [] \<and> (- 1::int) < 0" by simp
  from lowess_precondition_violations[of "- 1" "[1, 2, 3]"] a show ?thesis by blast
qed

section \<open>The single-sample sequence\<close>

lemma window_bounds_single: "0 \<le> h \<Longrightarrow> window_bounds 1 h 0 = (0, 1)"
  by (simp add: window_bounds_cases)

lemma regression_args_single:
  assumes "0 \<le> h"
  shows "regression_args (np_arange 0 1) [y] h 0 = Inr ([0], [0], [y], [0])"
  using assms
  by (simp add: regression_args_def window_bounds_single np_arange_def np_take_def
        window_weights_def py_max_def w_def np_div_def)

lemma lowess_single:
  assumes "0 \<le> h"
  shows "lowess [y] h = Inr [None]"
  using assms
  by (simp add: lowess_def my_lowess_def my_lowess_body_def regression_args_single[simplified]
        first_match_def np_where_eq_def weighted_linear_regression_def slope_den_def
        weighted_mean_def np_div_def np_mul_def np_sub_def np_add_def)

text \<open>
  Claim C3 says that on a single sample the smoother returns that sample. On the
  sample \<open>5\<close> with half-width \<open>2\<close> the result is a non-finite value.
\<close>

theorem lowess_single_counterexample:
  "lowess [5] 2 = Inr [None] \<and> lowess [5] 2 \<noteq> Inr [Some 5]"
  by (simp add: lowess_single)

text \<open>
  Claim C3, as the code has it. For one sample \<open>y\<close> and a half-width \<open>h \<ge> 0\<close> the
  window is \<open>[0, 1)\<close> and the largest absolute offset is \<open>0\<close>; the normalised
  coordinate \<open>0 / 0\<close> is non-finite, so the weight is \<open>0\<close> (the comparison of \<^verbatim>\<open>w\<close>
  fails); the slope denominator is \<open>0\<close> and the output is the non-finite value of
  the division \<open>0 / 0\<close>.
\<close>

theorem lowess_single_sample:
  assumes "0 \<le> h"
  shows "window_bounds 1 h 0 = (0, 1) \<and>
         py_max (map abs [0]) = Inr 0 \<and>
         np_div (of_int 0) (of_int 0) = None \<and>
         regression_args (np_arange 0 1) [y] h 0 = Inr ([0], [0], [y], [0]) \<and>
         slope_den [0] [0] = 0 \<and>
         lowess [y] h = Inr [None]"
  using assms
  by (simp add: window_bounds_single regression_args_single lowess_single py_max_def np_div_def
        slope_den_def)

text \<open>The theorem at the sample \<open>5\<close> and the half-width \<open>2\<close>.\<close>

theorem lowess_single_sample_witness:
  "(0::int) \<le> 2 \<and> regression_args (np_arange 0 1) [5] 2 0 = Inr ([0], [0], [5], [0]) \<and>
   lowess [5] 2 = Inr [None]"
proof -
  have a: "(0::int) \<le> 2" by simp
  from lowess_single_sample[OF a, of 5] a show ?thesis by blast
qed

section \<open>Interior windows\<close>

lemma window_bounds_interior:
  assumes "0 \<le> h" "h \<le> i" "i \<le> n - 1 - h"
  shows "window_bounds n h i = (i - h, i + h + 1)"
  using assms by (simp add: window_bounds_cases)

lemma w_np_div_minus: "w (np_div (- a) b) = w (np_div a b)"
  by (simp add: w_def np_div_def)

lemma np_arange_0_5: "np_arange 0 5 = [0, 1, 2, 3, 4]"
  by (simp add: np_arange_def upto.simps)

text \<open>
  Claim C6. For a half-width \<open>h \<ge> 0\<close> and a target index \<open>i\<close> with
  \<open>h \<le> i \<le> n - 1 - h\<close>, the window is \<open>[i - h, i + h + 1)\<close>, it has \<open>2h + 1\<close> weights,
  and for every \<open>0 \<le> k \<le> h\<close> the weight of the sample at the position \<open>i + k\<close> is
  the weight of the sample at the position \<open>i - k\<close>.
\<close>

theorem interior_weights_symmetric:
  assumes "0 \<le> h" "h \<le> i" "i \<le> int (length data_y) - 1 - h" "0 \<le> k" "k \<le> h"
  shows "\<exists>x y wts.
           regression_args (np_arange 0 (int (length data_y))) data_y h i
             = Inr (np_arange (i - h) (i + h + 1), x, y, wts) \<and>
           length wts = nat (2 * h + 1) \<and>
           np_arange (i - h) (i + h + 1) ! nat (h + k) = i + k \<and>
           np_arange (i - h) (i + h + 1) ! nat (h - k) = i - k \<and>
           wts ! nat (h + k) = wts ! nat (h - k)"
proof -
  have n: "1 \<le> int (length data_y)" "0 \<le> i" "i < int (length data_y)"
    using assms by simp_all
  have wb: "window_bounds (int (length data_y)) h i = (i - h, i + h + 1)"
    using assms by (rule_tac window_bounds_interior)
  let ?win = "np_arange (i - h) (i + h + 1)"
  let ?m = "real_of_int (Max (set (map (\<lambda>j. \<bar>j - i\<bar>) ?win)))"
  let ?wts = "map (\<lambda>j. w (np_div (of_int (j - i)) ?m)) ?win"
  have p: "?win ! nat (h + k) = i + k" "?win ! nat (h - k) = i - k"
    using assms by (simp_all add: nth_np_arange)
  have len: "length ?wts = nat (2 * h + 1)"
    using assms by (simp add: length_np_arange)
  have "?wts ! nat (h + k) = w (np_div (of_int k) ?m)"
    using assms p by (simp add: length_np_arange)
  moreover have "?wts ! nat (h - k) = w (np_div (- of_int k) ?m)"
    using assms p by (simp add: length_np_arange)
  ultimately have sym: "?wts ! nat (h + k) = ?wts ! nat (h - k)"
    by (simp only: w_np_div_minus)
  from regression_args_arange[OF n(1) assms(1) n(2,3) wb] p len sym
  show ?thesis by blast
qed

text \<open>
  The theorem on five samples with half-width \<open>2\<close>, target index \<open>2\<close> and \<open>k = 1\<close>:
  the weights of the positions \<open>3\<close> and \<open>1\<close> agree.
\<close>

theorem interior_weights_symmetric_witness:
  "(0::int) \<le> 2 \<and> (2::int) \<le> 2 \<and> (2::int) \<le> int (length [1, 2, 3, 4, 5::real]) - 1 - 2 \<and>
   (0::int) \<le> 1 \<and> (1::int) \<le> 2 \<and>
   (\<exists>x y wts.
      regression_args (np_arange 0 5) [1, 2, 3, 4, 5] 2 2 = Inr ([0, 1, 2, 3, 4], x, y, wts) \<and>
      length wts = 5 \<and> [0, 1, 2, 3, 4::int] ! 3 = 2 + 1 \<and> [0, 1, 2, 3, 4::int] ! 1 = 2 - 1 \<and>
      wts ! 3 = wts ! 1)"
proof -
  have a: "(0::int) \<le> 2" "(2::int) \<le> 2" "(2::int) \<le> int (length [1, 2, 3, 4, 5::real]) - 1 - 2"
          "(0::int) \<le> 1" "(1::int) \<le> 2"
    by simp_all
  have n: "nat (2 + 1) = 3" "nat (2 - 1) = 1" "nat (2 * 2 + 1) = 5"
    by simp_all
  from interior_weights_symmetric[OF a] obtain x y wts where
    "regression_args (np_arange 0 (int (length [1, 2, 3, 4, 5::real]))) [1, 2, 3, 4, 5] 2 2
       = Inr (np_arange (2 - 2) (2 + 2 + 1), x, y, wts)"
    "length wts = nat (2 * 2 + 1)"
    "wts ! nat (2 + 1) = wts ! nat (2 - 1)"
    by blast
  then have "regression_args (np_arange 0 5) [1, 2, 3, 4, 5] 2 2 = Inr ([0, 1, 2, 3, 4], x, y, wts)"
    "length wts = 5" "wts ! 3 = wts ! 1"
    by (simp_all add: n np_arange_0_5)
  with a show ?thesis
    by (intro conjI exI[of _ x] exI[of _ y] exI[of _ wts]) simp_all
qed

lemma np_arange_three: "np_arange (i - 1) (i + 2) = [i - 1, i, i + 1]"
  by (simp add: np_arange_def upto.simps)

lemma regression_args_half_width_one:
  assumes "1 \<le> i" "i \<le> int (length data_y) - 2"
  shows "regression_args (np_arange 0 (int (length data_y))) data_y 1 i
           = Inr ([i - 1, i, i + 1], [- 1, 0, 1],
                  [data_y ! nat (i - 1), data_y ! nat i, data_y ! nat (i + 1)], [0, 1, 0])"
proof -
  have n: "1 \<le> int (length data_y)" "0 \<le> i" "i < int (length data_y)"
    using assms by simp_all
  have wb: "window_bounds (int (length data_y)) 1 i = (i - 1, i + 2)"
    using assms window_bounds_interior[of 1 i "int (length data_y)"] by simp
  show ?thesis
    using regression_args_arange[OF n(1) _ n(2,3) wb]
    by (simp add: np_arange_three w_def np_div_def)
qed

lemma slope_den_half_width_one: "slope_den [- 1, 0, 1] [0, 1, 0] = 0"
  by (simp add: slope_den_def weighted_mean_def)

text \<open>
  Claim C9. For the half-width \<open>1\<close> and an interior target index \<open>1 \<le> i \<le> n - 2\<close>
  the window is \<open>i - 1, i, i + 1\<close> with the offsets \<open>-1, 0, 1\<close>; the weights are
  \<open>0, 1, 0\<close>, so only the target sample has a positive weight; the slope denominator
  is \<open>0\<close> and the output of \<^verbatim>\<open>lowess\<close> at the index \<open>i\<close> is non-finite.
\<close>

theorem half_width_one_interior:
  assumes "1 \<le> i" "i \<le> int (length data_y) - 2"
  shows "regression_args (np_arange 0 (int (length data_y))) data_y 1 i
           = Inr ([i - 1, i, i + 1], [- 1, 0, 1],
                  [data_y ! nat (i - 1), data_y ! nat i, data_y ! nat (i + 1)], [0, 1, 0]) \<and>
         slope_den [- 1, 0, 1] [0, 1, 0] = 0 \<and>
         (\<exists>r. lowess data_y 1 = Inr r \<and> r ! nat i = None)"
proof -
  have n: "1 \<le> int (length data_y)" "0 \<le> i" "i < int (length data_y)"
    using assms by simp_all
  have ne: "data_y \<noteq> []"
    using n(1) by auto
  note ra = regression_args_half_width_one[OF assms]
  from lowess_result[OF ne, of 1] obtain r where
    r: "lowess data_y 1 = Inr r"
       "\<forall>k<length data_y.
          my_lowess_body (np_arange 0 (int (length data_y))) data_y 1 (int k) = Inr (r ! k)"
    by auto
  have "nat i < length data_y"
    using n by simp
  with r(2) n(2) have "my_lowess_body (np_arange 0 (int (length data_y))) data_y 1 i = Inr (r ! nat i)"
    by (metis int_nat_eq)
  with my_lowess_body_arange[OF n(1) _ n(2,3) ra] have "r ! nat i = None"
    by (simp add: slope_den_half_width_one)
  with r(1) ra show ?thesis
    by (simp add: slope_den_half_width_one)
qed

text \<open>The theorem on the samples \<open>0, 1, 2\<close> at the index \<open>1\<close>.\<close>

theorem half_width_one_interior_witness:
  "(1::int) \<le> 1 \<and> (1::int) \<le> int (length [0, 1, 2::real]) - 2 \<and>
   regression_args (np_arange 0 3) [0, 1, 2] 1 1
     = Inr ([0, 1, 2], [- 1, 0, 1], [0, 1, 2], [0, 1, 0]) \<and>
   slope_den [- 1, 0, 1] [0, 1, 0] = 0 \<and>
   (\<exists>r. lowess [0, 1, 2] 1 = Inr r \<and> r ! 1 = None)"
proof -
  have a: "(1::int) \<le> 1" "(1::int) \<le> int (length [0, 1, 2::real]) - 2"
    by simp_all
  from half_width_one_interior[OF a] a show ?thesis
    by simp
qed

section \<open>Linear data and degenerate windows\<close>























end
